theory Spec2Isabelle
  imports Main
begin

section \<open>Data model\<close>

text \<open>
  Exceptions raised inside the job. \<open>NotFound\<close> is \<open>thoth.python.exceptions.NotFound\<close>;
  the others are the Python built-ins of the same name, and \<open>OtherError\<close> stands for any
  further subclass of \<open>Exception\<close> a collaborator raises (transport, HTTP status, parse).
\<close>

datatype exc =
    NotFound
  | AttributeError
  | TypeError
  | KeyError
  | IndexError
  | ValueError
  | OtherError string

text \<open>
  A document as \<open>yaml.safe_load\<close> returns it, over the JSON-like core of YAML:
  \<open>None\<close>, booleans, integers, strings, lists, and dicts with string keys (an association
  list in insertion order; lookup takes the first binding of a key).
\<close>

datatype yaml =
    YNull
  | YBool bool
  | YInt int
  | YStr string
  | YList "yaml list"
  | YDict "(string \<times> yaml) list"

text \<open>The entity the store hands back from its create operation.\<close>

datatype entity = Entity (package_name: string) (package_version: string) (index_url: string)

text \<open>
  One call of \<open>requests.post\<close>: the rendered URL, the form data, and the \<open>verify\<close>
  keyword (\<open>None\<close> when the keyword is not passed at all).
\<close>

datatype post_call = PostCall (post_url: string) (post_data: "(string \<times> string) list")
  (post_verify: "yaml option")

text \<open>
  The response object; all the job does with it is call \<open>raise_for_status\<close>, which
  either raises or returns.
\<close>

datatype response = Response (raise_for_status: "exc option")

datatype level = DEBUG | INFO | WARNING | ERROR

datatype logmsg =
    TriggeringNotification string string
  | TriggeredNotification string string yaml
  | TriggerFailed string string yaml exc
  | CheckingIndex string
  | NoVersionsFound string string exc
  | RetrieveVersionsFailed string exc
  | NotPreviouslySeen string string string
  | NewReleaseAdded string string string
  | AlreadyPresent string string string
  | NotificationFailed string string string exc
  | DebugModeOn
  | VersionInfo
  | NoPackagesToCheck
  | LoadingRemoteConfig string
  | LoadingLocalConfig string
  | LoadConfigFailed string
  | SubmittingMetrics string
  | PushFailed exc

text \<open>
  Everything observable a run does, in order: log records and the calls made to the
  collaborators (index client, store, HTTP, files, metrics sink).
\<close>

datatype event =
    Log level logmsg
  | HttpGet string
  | OpenFile string
  | HttpPost post_call bool
  | IndexAll
  | GetPackages string
  | GetPackageVersions string string
  | CreateEntity string string string bool "(entity \<times> bool) option"
  | CreateEntityRaised string string string bool exc
  | Connect
  | NamesAll
  | ReadPackageNames string string
  | ObserveTime
  | PushToGateway string bool

text \<open>
  The collaborators, none of which is part of the repository, are parameters of the model.
  Each takes the state of the outside world \<open>'w\<close> and returns its result, or the exception
  it raises, with the new state of the world.

  \<^item> \<open>environ\<close> is \<open>os.environ\<close>, \<open>deployment_name\<close> is \<open>_THOTH_DEPLOYMENT_NAME\<close> and
    \<open>pushgateway_url\<close> is \<open>_THOTH_METRICS_PUSHGATEWAY_URL\<close>, all read at import time.
  \<^item> \<open>str_format t kw\<close> is Python's \<open>t.format(**kw)\<close>.
  \<^item> \<open>get_python_package_index_all\<close> lists the URLs of the enabled indices; building a
    \<open>Source\<close> from each configuration is folded into it.
  \<^item> \<open>read_package_names file jsonpath\<close> opens the file, loads it and returns the values of
    the matches of the JSONPath expression.
  \<^item> \<open>http_get\<close> is \<open>requests.get\<close> followed by \<open>raise_for_status\<close>, \<open>text\<close> and
    \<open>yaml.safe_load\<close>; \<open>read_file\<close> is \<open>open\<close>, \<open>read\<close> and \<open>yaml.safe_load\<close>.
\<close>

record 'w env =
  environ :: "(string \<times> string) list"
  deployment_name :: string
  pushgateway_url :: "string option"
  str_format :: "string \<Rightarrow> (string \<times> string) list \<Rightarrow> exc + string"
  requests_post :: "'w \<Rightarrow> post_call \<Rightarrow> (exc + response) \<times> 'w"
  http_get :: "'w \<Rightarrow> string \<Rightarrow> (exc + yaml) \<times> 'w"
  read_file :: "'w \<Rightarrow> string \<Rightarrow> (exc + yaml) \<times> 'w"
  read_package_names :: "'w \<Rightarrow> string \<Rightarrow> string \<Rightarrow> (exc + yaml list) \<times> 'w"
  graph_connect :: "'w \<Rightarrow> exc option \<times> 'w"
  get_python_package_index_all :: "'w \<Rightarrow> (exc + string list) \<times> 'w"
  get_python_package_version_entities_names_all :: "'w \<Rightarrow> (exc + string list) \<times> 'w"
  create_python_package_version_entity ::
    "'w \<Rightarrow> string \<Rightarrow> string \<Rightarrow> string \<Rightarrow> bool \<Rightarrow> (exc + (entity \<times> bool) option) \<times> 'w"
  get_packages :: "'w \<Rightarrow> string \<Rightarrow> (exc + string list) \<times> 'w"
  get_package_versions :: "'w \<Rightarrow> string \<Rightarrow> string \<Rightarrow> (exc + string list) \<times> 'w"
  push_to_gateway :: "'w \<Rightarrow> string \<Rightarrow> exc option \<times> 'w"

text \<open>
  The state of a run: the outside world, the events so far, and the two gauges
  \<open>_METRIC_PACKAGES_NEW_AND_ADDED\<close> and \<open>_METRIC_PACKAGES_NEW_AND_NOTIFIED\<close>.
\<close>

record 'w state =
  world :: 'w
  trace :: "event list"
  packages_added :: nat
  packages_notified :: nat

definition init_state :: "'w \<Rightarrow> 'w state" where
  "init_state w = \<lparr>world = w, trace = [], packages_added = 0, packages_notified = 0\<rparr>"

definition emit :: "event list \<Rightarrow> 'w state \<Rightarrow> 'w state" where
  "emit evs st = st\<lparr>trace := trace st @ evs\<rparr>"

definition inc_added :: "'w state \<Rightarrow> 'w state" where
  "inc_added st = st\<lparr>packages_added := Suc (packages_added st)\<rparr>"

definition inc_notified :: "'w state \<Rightarrow> 'w state" where
  "inc_notified st = st\<lparr>packages_notified := Suc (packages_notified st)\<rparr>"

section \<open>The Python operations the job relies on\<close>

text \<open>Truth value of an object, as \<open>if x\<close>, \<open>x or y\<close> and \<open>not x\<close> take it.\<close>

fun truthy :: "yaml \<Rightarrow> bool" where
  "truthy YNull = False"
| "truthy (YBool b) = b"
| "truthy (YInt i) = (i \<noteq> 0)"
| "truthy (YStr s) = (s \<noteq> [])"
| "truthy (YList xs) = (xs \<noteq> [])"
| "truthy (YDict kvs) = (kvs \<noteq> [])"

text \<open>
  \<open>for x in obj\<close>: a list gives its elements, a dict its keys, a string its characters
  (each a string of length one); anything else is not iterable.
\<close>

fun py_iter :: "yaml \<Rightarrow> exc + yaml list" where
  "py_iter (YList xs) = Inr xs"
| "py_iter (YDict kvs) = Inr (map (\<lambda>kv. YStr (fst kv)) kvs)"
| "py_iter (YStr s) = Inr (map (\<lambda>c. YStr [c]) s)"
| "py_iter _ = Inl TypeError"

text \<open>\<open>obj.get(key, default)\<close>: only a dict has the method.\<close>

fun dict_get :: "yaml \<Rightarrow> string \<Rightarrow> yaml \<Rightarrow> exc + yaml" where
  "dict_get (YDict kvs) k d = Inr (case map_of kvs k of None \<Rightarrow> d | Some v \<Rightarrow> v)"
| "dict_get _ k d = Inl AttributeError"

text \<open>
  \<open>obj[key]\<close> with a string key: a dict without the key raises \<open>KeyError\<close>; a list or a
  string wants an integer index and every other object is not subscriptable, both a
  \<open>TypeError\<close>.
\<close>

fun subscript :: "yaml \<Rightarrow> string \<Rightarrow> exc + yaml" where
  "subscript (YDict kvs) k = (case map_of kvs k of None \<Rightarrow> Inl KeyError | Some v \<Rightarrow> Inr v)"
| "subscript _ k = Inl TypeError"

text \<open>\<open>s.startswith(p)\<close>.\<close>

definition startswith :: "string \<Rightarrow> string \<Rightarrow> bool" where
  "startswith s p = (take (length p) s = p)"

section \<open>Loading the monitoring configuration\<close>

definition load_package_monitoring_config ::
  "'w env \<Rightarrow> string \<Rightarrow> 'w state \<Rightarrow> (exc + yaml) \<times> 'w state" where
  "load_package_monitoring_config env config_path st =
     (if config_path = [] then (Inr YNull, st)
      else if startswith config_path ''https://'' \<or> startswith config_path ''http://'' then
        (let st1 = emit [Log DEBUG (LoadingRemoteConfig config_path), HttpGet config_path] st;
             (r, w') = http_get env (world st1) config_path
         in (r, st1\<lparr>world := w'\<rparr>))
      else
        (let st1 = emit [Log DEBUG (LoadingLocalConfig config_path), OpenFile config_path] st;
             (r, w') = read_file env (world st1) config_path
         in (r, st1\<lparr>world := w'\<rparr>)))"

section \<open>The notification dispatcher\<close>

text \<open>
  The keyword arguments of the call of \<open>format\<close>: \<open>**os.environ\<close> followed by the four
  explicit keywords. A name given twice is a \<open>TypeError\<close> of the call.
\<close>

definition explicit_keywords :: "'w env \<Rightarrow> string \<Rightarrow> string \<Rightarrow> string \<Rightarrow> (string \<times> string) list" where
  "explicit_keywords env name version url =
     [(''package_name'', name), (''package_version'', version), (''index_url'', url),
      (''thoth_deployment_name'', deployment_name env)]"

definition format_url :: "'w env \<Rightarrow> string \<Rightarrow> string \<Rightarrow> string \<Rightarrow> string \<Rightarrow> exc + string" where
  "format_url env template name version url =
     (if list_ex (\<lambda>k. k \<in> set (map fst (explicit_keywords env name version url)))
           (map fst (environ env))
      then Inl TypeError
      else str_format env template (environ env @ explicit_keywords env name version url))"

text \<open>
  The part of the \<open>try\<close> block that runs before \<open>requests.post\<close> is entered: the
  \<open>verify\<close> keyword is set when the URL of the trigger, as configured, starts with
  \<open>https://\<close>; then the URL is rendered. \<open>trigger["url"]\<close> must be a string for
  \<open>startswith\<close> to exist.
\<close>

definition build_request :: "'w env \<Rightarrow> yaml \<Rightarrow> string \<Rightarrow> string \<Rightarrow> string \<Rightarrow> exc + post_call" where
  "build_request env trigger name version url =
     (case subscript trigger ''url'' of
        Inl e \<Rightarrow> Inl e
      | Inr (YStr template) \<Rightarrow>
          (case (if startswith template ''https://''
                 then map_sum id Some (dict_get trigger ''tls_verify'' (YBool True))
                 else Inr None) of
             Inl e \<Rightarrow> Inl e
           | Inr verify \<Rightarrow>
               (case format_url env template name version url of
                  Inl e \<Rightarrow> Inl e
                | Inr rendered \<Rightarrow>
                    Inr (PostCall rendered (explicit_keywords env name version url) verify)))
      | Inr _ \<Rightarrow> Inl AttributeError)"

text \<open>
  The body of the loop over the triggers. The result says whether \<open>was_triggered\<close> was
  set in this iteration. Every exception of the \<open>try\<close> block is caught and logged.
\<close>

definition notify_trigger ::
  "'w env \<Rightarrow> string \<Rightarrow> string \<Rightarrow> string \<Rightarrow> yaml \<Rightarrow> 'w state \<Rightarrow> bool \<times> 'w state" where
  "notify_trigger env name version url trigger st =
     (let st1 = emit [Log DEBUG (TriggeringNotification name version)] st in
      case build_request env trigger name version url of
        Inl e \<Rightarrow> (False, emit [Log ERROR (TriggerFailed name version trigger e)] st1)
      | Inr call \<Rightarrow>
          (case requests_post env (world st1) call of
             (Inl e, w') \<Rightarrow>
               (False, emit [HttpPost call False, Log ERROR (TriggerFailed name version trigger e)]
                         (st1\<lparr>world := w'\<rparr>))
           | (Inr resp, w') \<Rightarrow>
               (case raise_for_status resp of
                  Some e \<Rightarrow>
                    (False, emit [HttpPost call False, Log ERROR (TriggerFailed name version trigger e)]
                              (st1\<lparr>world := w'\<rparr>))
                | None \<Rightarrow>
                    (True, emit [HttpPost call True, Log INFO (TriggeredNotification name version trigger)]
                             (st1\<lparr>world := w'\<rparr>)))))"

fun triggers_loop ::
  "'w env \<Rightarrow> string \<Rightarrow> string \<Rightarrow> string \<Rightarrow> yaml list \<Rightarrow> bool \<Rightarrow> 'w state \<Rightarrow> bool \<times> 'w state" where
  "triggers_loop env name version url [] was_triggered st = (was_triggered, st)"
| "triggers_loop env name version url (trigger # rest) was_triggered st =
     (case notify_trigger env name version url trigger st of
        (ok, st') \<Rightarrow> triggers_loop env name version url rest (was_triggered \<or> ok) st')"

text \<open>
  \<open>monitored_packages.get(package_name, {}).get("triggers") or []\<close>, made ready for
  iteration. It is evaluated outside the \<open>try\<close> block, so its exceptions leave
  \<open>release_notification\<close>.
\<close>

definition triggers_of :: "yaml \<Rightarrow> string \<Rightarrow> exc + yaml list" where
  "triggers_of monitored_packages name =
     (case dict_get monitored_packages name (YDict []) of
        Inl e \<Rightarrow> Inl e
      | Inr package_config \<Rightarrow>
          (case dict_get package_config ''triggers'' YNull of
             Inl e \<Rightarrow> Inl e
           | Inr triggers \<Rightarrow> if truthy triggers then py_iter triggers else Inr []))"

definition release_notification ::
  "'w env \<Rightarrow> yaml \<Rightarrow> string \<Rightarrow> string \<Rightarrow> string \<Rightarrow> 'w state \<Rightarrow> (exc + bool) \<times> 'w state" where
  "release_notification env monitored_packages name version url st =
     (case triggers_of monitored_packages name of
        Inl e \<Rightarrow> (Inl e, st)
      | Inr triggers \<Rightarrow>
          (case triggers_loop env name version url triggers False st of
             (was_triggered, st') \<Rightarrow> (Inr was_triggered, st')))"

section \<open>The reconciliation engine\<close>

text \<open>
  The body of the loop over the versions of one package; the result is the exception that
  leaves the loop, if any. \<open>added\<close> is \<open>None\<close> or the pair \<open>(entity, existed)\<close>; past
  the \<open>None\<close> branch it is a pair, and a pair is a true object, so
  \<open>added and monitored_packages\<close> is the truth value of \<open>monitored_packages\<close>. The value
  \<open>release_notification\<close> returns is dropped by the caller: the gauge is incremented
  whenever the call comes back without raising. An exception of the store's create
  operation is not caught and ends the pass.
\<close>

definition process_version ::
  "'w env \<Rightarrow> yaml \<Rightarrow> bool \<Rightarrow> string \<Rightarrow> string \<Rightarrow> string \<Rightarrow> 'w state \<Rightarrow> exc option \<times> 'w state" where
  "process_version env monitored_packages only_if_package_seen url name version st =
     (case create_python_package_version_entity env (world st) name version url only_if_package_seen of
        (Inl e, w') \<Rightarrow>
          (Some e, emit [CreateEntityRaised name version url only_if_package_seen e] (st\<lparr>world := w'\<rparr>))
      | (Inr added, w') \<Rightarrow>
          (let st1 = emit [CreateEntity name version url only_if_package_seen added] (st\<lparr>world := w'\<rparr>) in
           case added of
             None \<Rightarrow> (None, emit [Log DEBUG (NotPreviouslySeen name version url)] st1)
           | Some (entity, existed) \<Rightarrow>
               (let st2 = (if \<not> existed
                           then inc_added (emit [Log INFO (NewReleaseAdded name version url)] st1)
                           else emit [Log DEBUG (AlreadyPresent name version url)] st1)
                in if truthy monitored_packages
                   then (case release_notification env monitored_packages
                                (package_name entity) (package_version entity) url st2 of
                           (Inr was_triggered, st') \<Rightarrow> (None, inc_notified st')
                         | (Inl e, st') \<Rightarrow>
                             (None, emit [Log ERROR (NotificationFailed name version url e)] st'))
                   else (None, st2))))"

fun versions_loop ::
  "'w env \<Rightarrow> yaml \<Rightarrow> bool \<Rightarrow> string \<Rightarrow> string \<Rightarrow> string list \<Rightarrow> 'w state \<Rightarrow> exc option \<times> 'w state" where
  "versions_loop env monitored_packages only_if_package_seen url name [] st = (None, st)"
| "versions_loop env monitored_packages only_if_package_seen url name (version # rest) st =
     (case process_version env monitored_packages only_if_package_seen url name version st of
        (Some e, st') \<Rightarrow> (Some e, st')
      | (None, st') \<Rightarrow> versions_loop env monitored_packages only_if_package_seen url name rest st')"

text \<open>
  The body of the loop over the candidate packages of one index. Both handlers of the
  \<open>try\<close> around \<open>get_package_versions\<close> end in \<open>continue\<close>: \<open>NotFound\<close> is logged with
  \<open>_LOGGER.debug\<close>, every other exception with \<open>_LOGGER.exception\<close>.
\<close>

definition process_package ::
  "'w env \<Rightarrow> yaml \<Rightarrow> bool \<Rightarrow> string \<Rightarrow> string \<Rightarrow> 'w state \<Rightarrow> exc option \<times> 'w state" where
  "process_package env monitored_packages only_if_package_seen url name st =
     (let st1 = emit [GetPackageVersions url name] st in
      case get_package_versions env (world st1) url name of
        (Inl e, w') \<Rightarrow>
          (None, emit [if e = NotFound then Log DEBUG (NoVersionsFound name url e)
                       else Log ERROR (RetrieveVersionsFailed name e)] (st1\<lparr>world := w'\<rparr>))
      | (Inr package_versions, w') \<Rightarrow>
          versions_loop env monitored_packages only_if_package_seen url name package_versions
            (st1\<lparr>world := w'\<rparr>))"

fun packages_loop ::
  "'w env \<Rightarrow> yaml \<Rightarrow> bool \<Rightarrow> string \<Rightarrow> string list \<Rightarrow> 'w state \<Rightarrow> exc option \<times> 'w state" where
  "packages_loop env monitored_packages only_if_package_seen url [] st = (None, st)"
| "packages_loop env monitored_packages only_if_package_seen url (name # rest) st =
     (case process_package env monitored_packages only_if_package_seen url name st of
        (Some e, st') \<Rightarrow> (Some e, st')
      | (None, st') \<Rightarrow> packages_loop env monitored_packages only_if_package_seen url rest st')"

text \<open>
  \<open>package_names or package_index.get_packages()\<close>, evaluated once for each index:
  \<open>None\<close> and the empty list are both false, and then the index is asked for its own
  catalogue.
\<close>

definition candidates ::
  "'w env \<Rightarrow> string list option \<Rightarrow> string \<Rightarrow> 'w state \<Rightarrow> (exc + string list) \<times> 'w state" where
  "candidates env package_names url st =
     (case package_names of
        Some (n # ns) \<Rightarrow> (Inr (n # ns), st)
      | _ \<Rightarrow>
          (let st1 = emit [GetPackages url] st;
               (r, w') = get_packages env (world st1) url
           in (r, st1\<lparr>world := w'\<rparr>)))"

text \<open>The body of the loop over the enabled indices.\<close>

definition process_index ::
  "'w env \<Rightarrow> yaml \<Rightarrow> string list option \<Rightarrow> bool \<Rightarrow> string \<Rightarrow> 'w state \<Rightarrow> exc option \<times> 'w state" where
  "process_index env monitored_packages package_names only_if_package_seen url st =
     (case candidates env package_names url (emit [Log INFO (CheckingIndex url)] st) of
        (Inl e, st1) \<Rightarrow> (Some e, st1)
      | (Inr names, st1) \<Rightarrow>
          packages_loop env monitored_packages only_if_package_seen url names st1)"

fun sources_loop ::
  "'w env \<Rightarrow> yaml \<Rightarrow> string list option \<Rightarrow> bool \<Rightarrow> string list \<Rightarrow> 'w state \<Rightarrow> exc option \<times> 'w state" where
  "sources_loop env monitored_packages package_names only_if_package_seen [] st = (None, st)"
| "sources_loop env monitored_packages package_names only_if_package_seen (url # rest) st =
     (case process_index env monitored_packages package_names only_if_package_seen url st of
        (Some e, st') \<Rightarrow> (Some e, st')
      | (None, st') \<Rightarrow>
          sources_loop env monitored_packages package_names only_if_package_seen rest st')"

definition package_releases_update ::
  "'w env \<Rightarrow> yaml \<Rightarrow> string list option \<Rightarrow> bool \<Rightarrow> 'w state \<Rightarrow> exc option \<times> 'w state" where
  "package_releases_update env monitored_packages package_names only_if_package_seen st =
     (let st1 = emit [IndexAll] st in
      case get_python_package_index_all env (world st1) of
        (Inl e, w') \<Rightarrow> (Some e, st1\<lparr>world := w'\<rparr>)
      | (Inr sources, w') \<Rightarrow>
          sources_loop env monitored_packages package_names only_if_package_seen sources
            (st1\<lparr>world := w'\<rparr>))"

section \<open>The command line entry point\<close>

text \<open>How the process ends: \<open>cli\<close> returns, an exception leaves it, or \<open>sys.exit\<close>.\<close>

datatype outcome = Returned | Raised exc | Exited nat

text \<open>
  The exit status of the interpreter: 0 after a return, 1 after an uncaught exception,
  the argument of \<open>sys.exit\<close> otherwise.
\<close>

fun exit_status :: "outcome \<Rightarrow> nat" where
  "exit_status Returned = 0"
| "exit_status (Raised e) = 1"
| "exit_status (Exited n) = n"

text \<open>Truth value of an optional string: \<open>None\<close> and the empty string are false.\<close>

fun supplied :: "string option \<Rightarrow> bool" where
  "supplied None = False"
| "supplied (Some s) = (s \<noteq> [])"

text \<open>The inner loop over \<open>item.value\<close>: every entry must be a string.\<close>

fun entries_loop :: "yaml list \<Rightarrow> string list \<Rightarrow> exc + string list" where
  "entries_loop [] package_names = Inr package_names"
| "entries_loop (YStr s # rest) package_names = entries_loop rest (package_names @ [s])"
| "entries_loop (_ # rest) package_names = Inl ValueError"

fun items_loop :: "yaml list \<Rightarrow> string list \<Rightarrow> exc + string list" where
  "items_loop [] package_names = Inr package_names"
| "items_loop (v # rest) package_names =
     (case py_iter v of
        Inl e \<Rightarrow> Inl e
      | Inr entries \<Rightarrow>
          (case entries_loop entries package_names of
             Inl e \<Rightarrow> Inl e
           | Inr package_names' \<Rightarrow> items_loop rest package_names'))"

text \<open>
  The block under \<open>if package_names_file\<close>; the result is the outcome that ends the
  process, or the list of names.
\<close>

definition resolve_package_names ::
  "'w env \<Rightarrow> string \<Rightarrow> string \<Rightarrow> 'w state \<Rightarrow> (outcome + string list) \<times> 'w state" where
  "resolve_package_names env file jsonpath st =
     (let st1 = emit [ReadPackageNames file jsonpath] st in
      case read_package_names env (world st1) file jsonpath of
        (Inl e, w') \<Rightarrow> (Inl (Raised e), st1\<lparr>world := w'\<rparr>)
      | (Inr items, w') \<Rightarrow>
          (case items_loop items [] of
             Inl e \<Rightarrow> (Inl (Raised e), st1\<lparr>world := w'\<rparr>)
           | Inr package_names \<Rightarrow>
               if package_names = []
               then (Inl (Exited 2), emit [Log WARNING NoPackagesToCheck] (st1\<lparr>world := w'\<rparr>))
               else (Inr package_names, st1\<lparr>world := w'\<rparr>)))"

text \<open>The \<open>finally\<close> block: nothing is pushed unless the gateway URL is set and not empty.\<close>

definition push_metrics :: "'w env \<Rightarrow> 'w state \<Rightarrow> 'w state" where
  "push_metrics env st =
     (if supplied (pushgateway_url env) then
        (let url = the (pushgateway_url env);
             st1 = emit [Log INFO (SubmittingMetrics url)] st
         in case push_to_gateway env (world st1) url of
              (None, w') \<Rightarrow> emit [PushToGateway url True] (st1\<lparr>world := w'\<rparr>)
            | (Some e, w') \<Rightarrow>
                emit [PushToGateway url False, Log ERROR (PushFailed e)] (st1\<lparr>world := w'\<rparr>))
      else st)"

text \<open>
  The \<open>try\<close> ... \<open>finally\<close> at the end of \<open>cli\<close>. The call passes \<open>monitored_packages\<close>,
  \<open>graph\<close> and \<open>package_names\<close> only, so \<open>only_if_package_seen\<close> takes its default
  \<open>False\<close>. The timer records the duration when the \<open>with\<close> block is left, either way.
\<close>

definition update_and_push ::
  "'w env \<Rightarrow> yaml \<Rightarrow> string list option \<Rightarrow> 'w state \<Rightarrow> outcome \<times> 'w state" where
  "update_and_push env monitored_packages package_names st =
     (case package_releases_update env monitored_packages package_names False st of
        (r, st1) \<Rightarrow>
          (case r of None \<Rightarrow> Returned | Some e \<Rightarrow> Raised e,
           push_metrics env (emit [ObserveTime] st1)))"

text \<open>
  Everything from \<open>graph = GraphDatabase()\<close> on; the constructor and \<open>connect\<close> are
  one call of the model.
\<close>

definition connect_and_run ::
  "'w env \<Rightarrow> string option \<Rightarrow> bool \<Rightarrow> string list option \<Rightarrow> 'w state \<Rightarrow> outcome \<times> 'w state" where
  "connect_and_run env monitoring_config only_if_package_seen package_names st =
     (let st1 = emit [Connect] st in
      case graph_connect env (world st1) of
        (Some e, w') \<Rightarrow> (Raised e, st1\<lparr>world := w'\<rparr>)
      | (None, w') \<Rightarrow>
          (case (if only_if_package_seen
                 then (let st2 = emit [NamesAll] (st1\<lparr>world := w'\<rparr>);
                           (r, w'') = get_python_package_version_entities_names_all env (world st2)
                       in (map_sum id Some r, st2\<lparr>world := w''\<rparr>))
                 else (Inr package_names, st1\<lparr>world := w'\<rparr>)) of
             (Inl e, st3) \<Rightarrow> (Raised e, st3)
           | (Inr package_names', st3) \<Rightarrow>
               (case (if supplied monitoring_config
                      then load_package_monitoring_config env (the monitoring_config) st3
                      else (Inr YNull, st3)) of
                  (Inl e, st4) \<Rightarrow>
                    (Raised e, emit [Log ERROR (LoadConfigFailed (the monitoring_config))] st4)
                | (Inr monitored_packages, st4) \<Rightarrow>
                    update_and_push env monitored_packages package_names' st4)))"

text \<open>
  The entry point. The level of the logger is not modelled: every call of a logging
  method is an event, so \<open>verbose\<close> has no effect on the trace.
\<close>

definition cli ::
  "'w env \<Rightarrow> bool \<Rightarrow> string option \<Rightarrow> bool \<Rightarrow> string option \<Rightarrow> string option \<Rightarrow> 'w state
     \<Rightarrow> outcome \<times> 'w state" where
  "cli env verbose monitoring_config only_if_package_seen package_names_file
       package_names_file_jsonpath st =
     (let st1 = emit [Log DEBUG DebugModeOn, Log INFO VersionInfo] st in
      if supplied package_names_file_jsonpath \<and> \<not> supplied package_names_file then
        (Raised ValueError, st1)
      else if \<not> supplied package_names_file_jsonpath \<and> supplied package_names_file then
        (Raised ValueError, st1)
      else if only_if_package_seen \<and> supplied package_names_file then
        (Raised ValueError, st1)
      else
        (case (if supplied package_names_file
               then resolve_package_names env (the package_names_file)
                      (the package_names_file_jsonpath) st1
               else (Inr [], st1)) of
           (Inl out, st2) \<Rightarrow> (out, st2)
         | (Inr names, st2) \<Rightarrow>
             connect_and_run env monitoring_config only_if_package_seen
               (if supplied package_names_file then Some names else None) st2))"

section \<open>A concrete world\<close>

text \<open>
  \<open>str.format\<close> on templates whose replacement fields are plain keyword names: text is
  copied, \<open>{{\<close> and \<open>}}\<close> stand for one brace, \<open>{name}\<close> is replaced by the value of the
  keyword. A lone brace is a \<open>ValueError\<close>, an unknown name a \<open>KeyError\<close>, an empty or
  numeric field an \<open>IndexError\<close> (there are no positional arguments). Fields with a
  conversion, a format specification, an attribute or an index are outside this fragment
  and answered with \<open>OtherError\<close>; the concrete inputs below do not use them.
\<close>

fun format_text :: "(string \<times> string) list \<Rightarrow> string \<Rightarrow> exc + string"
  and format_field :: "(string \<times> string) list \<Rightarrow> string \<Rightarrow> string \<Rightarrow> exc + string" where
  "format_text kw [] = Inr []"
| "format_text kw [c] =
     (if c = CHR ''{'' \<or> c = CHR ''}'' then Inl ValueError else Inr [c])"
| "format_text kw (c # d # cs) =
     (if c = CHR ''{'' then
        (if d = CHR ''{'' then map_sum id ((#) c) (format_text kw cs)
         else format_field kw [] (d # cs))
      else if c = CHR ''}'' then
        (if d = CHR ''}'' then map_sum id ((#) c) (format_text kw cs)
         else Inl ValueError)
      else map_sum id ((#) c) (format_text kw (d # cs)))"
| "format_field kw field [] = Inl ValueError"
| "format_field kw field (c # cs) =
     (if c = CHR ''}'' then
        (if field = [] \<or> list_all (\<lambda>x. x \<in> set ''0123456789'') field then Inl IndexError
         else (case map_of kw field of
                 None \<Rightarrow> Inl KeyError
               | Some v \<Rightarrow> map_sum id ((@) v) (format_text kw cs)))
      else if c = CHR ''{'' then Inl ValueError
      else if c \<in> set ''!:.['' then Inl (OtherError ''field outside the fragment'')
      else format_field kw (field @ [c]) cs)"

definition format_plain :: "string \<Rightarrow> (string \<times> string) list \<Rightarrow> exc + string" where
  "format_plain template kw = format_text kw template"

text \<open>
  A store that keeps the tuples it has seen. Its create operation follows the interface
  the job relies on: \<open>None\<close> when only seen packages are wanted and the name is unknown,
  otherwise the entity and whether the tuple was there already.
\<close>

type_synonym store = "(string \<times> string \<times> string) list"

definition store_create ::
  "store \<Rightarrow> string \<Rightarrow> string \<Rightarrow> string \<Rightarrow> bool \<Rightarrow> (exc + (entity \<times> bool) option) \<times> store" where
  "store_create w name version url only_if_seen =
     (if only_if_seen \<and> name \<notin> set (map fst w) then (Inr None, w)
      else if (name, version, url) \<in> set w then (Inr (Some (Entity name version url, True)), w)
      else (Inr (Some (Entity name version url, False)), w @ [(name, version, url)]))"

text \<open>
  One enabled index that hosts \<open>widget\<close> in versions 1.0 and 1.1, the store above, an
  HTTP endpoint that accepts every post, and a gateway that accepts every push.
\<close>

definition demo_index :: string where
  "demo_index = ''https://pypi.org/simple''"

definition demo_env :: "store env" where
  "demo_env =
     \<lparr>environ = [(''HOME'', ''/root'')],
      deployment_name = ''test'',
      pushgateway_url = Some ''http://pushgateway:9091'',
      str_format = format_plain,
      requests_post = (\<lambda>w call. (Inr (Response None), w)),
      http_get = (\<lambda>w url. (Inl (OtherError ''unreachable''), w)),
      read_file = (\<lambda>w path. (Inr YNull, w)),
      read_package_names = (\<lambda>w file jsonpath. (Inr [YList [YStr ''widget'']], w)),
      graph_connect = (\<lambda>w. (None, w)),
      get_python_package_index_all = (\<lambda>w. (Inr [demo_index], w)),
      get_python_package_version_entities_names_all = (\<lambda>w. (Inr (remdups (map fst w)), w)),
      create_python_package_version_entity = store_create,
      get_packages = (\<lambda>w url. (Inr [''widget''], w)),
      get_package_versions =
        (\<lambda>w url name. (if name = ''widget'' then Inr [''1.0'', ''1.1''] else Inl NotFound, w)),
      push_to_gateway = (\<lambda>w url. (None, w))\<rparr>"

text \<open>A monitoring configuration with one trigger for \<open>widget\<close>.\<close>

definition widget_config :: yaml where
  "widget_config =
     YDict [(''widget'', YDict [(''triggers'', YList [YDict [(''url'', YStr ''http://hook/{package_name}'')]])])]"

text \<open>A trigger whose URL gets its scheme from the index URL, with verification switched off.\<close>

definition index_url_config :: yaml where
  "index_url_config =
     YDict [(''widget'', YDict [(''triggers'',
       YList [YDict [(''url'', YStr ''{index_url}/notify''), (''tls_verify'', YBool False)]])])]"

text \<open>A trigger with a secure URL and verification switched off.\<close>

definition https_trigger :: yaml where
  "https_trigger = YDict [(''url'', YStr ''https://hook/{package_name}''), (''tls_verify'', YBool False)]"

text \<open>A monitoring configuration with a trigger for another package only.\<close>

definition other_config :: yaml where
  "other_config =
     YDict [(''gadget'', YDict [(''triggers'', YList [YDict [(''url'', YStr ''http://hook/{package_name}'')]])])]"


section \<open>Vocabulary for the properties\<close>

text \<open>The log record of the sentinel branch: the store created nothing.\<close>

fun sentinel_msg :: "logmsg \<Rightarrow> bool" where
  "sentinel_msg (NotPreviouslySeen n v u) = True"
| "sentinel_msg _ = False"

text \<open>
  A create call that reported a new release: the store returned a pair whose second
  component, \<open>existed\<close>, is false.
\<close>

fun new_release :: "event \<Rightarrow> bool" where
  "new_release (CreateEntity n v u s (Some (e, existed))) = (\<not> existed)"
| "new_release _ = False"

text \<open>How many create calls of a trace reported a new release.\<close>

definition added_events :: "event list \<Rightarrow> nat" where
  "added_events evs = length (filter new_release evs)"

text \<open>A property of events that no log record and no delivery has.\<close>

definition notif_only :: "(event \<Rightarrow> bool) \<Rightarrow> bool" where
  "notif_only Q = ((\<forall>l m. \<not> Q (Log l m)) \<and> (\<forall>c b. \<not> Q (HttpPost c b)))"

text \<open>
  Calls that leave the machine: everything but log records, local files and the timer.
\<close>

fun network_io :: "event \<Rightarrow> bool" where
  "network_io (Log l m) = False"
| "network_io (OpenFile p) = False"
| "network_io (ReadPackageNames f j) = False"
| "network_io ObserveTime = False"
| "network_io _ = True"

text \<open>
  A property of events that holds of everything a reconciliation pass with the given
  \<open>only_if_package_seen\<close> can emit. The sentinel record and a create call with result
  \<open>None\<close> need it only where the store can answer \<open>None\<close>.
\<close>

definition pass_events :: "'w env \<Rightarrow> bool \<Rightarrow> (event \<Rightarrow> bool) \<Rightarrow> bool" where
  "pass_events env s P =
     ((\<forall>l m. \<not> sentinel_msg m \<longrightarrow> P (Log l m)) \<and> (\<forall>c b. P (HttpPost c b)) \<and> P IndexAll \<and>
      (\<forall>u. P (GetPackages u)) \<and> (\<forall>u n. P (GetPackageVersions u n)) \<and>
      (\<forall>n v u e. P (CreateEntityRaised n v u s e)) \<and>
      (\<forall>n v u a. P (CreateEntity n v u s (Some a))) \<and>
      (\<forall>w n v u w'. create_python_package_version_entity env w n v u s = (Inr None, w') \<longrightarrow>
         P (CreateEntity n v u s None) \<and> P (Log DEBUG (NotPreviouslySeen n v u))))"


text \<open>A create call is made with \<open>only_if_package_seen = False\<close>.\<close>

fun seen_flag_off :: "event \<Rightarrow> bool" where
  "seen_flag_off (CreateEntity n v u s r) = (\<not> s)"
| "seen_flag_off (CreateEntityRaised n v u s e) = (\<not> s)"
| "seen_flag_off _ = True"

text \<open>
  Not a trace of the sentinel branch: neither a create call answered with \<open>None\<close> nor the
  log record of that branch.
\<close>

fun no_sentinel :: "event \<Rightarrow> bool" where
  "no_sentinel (CreateEntity n v u s r) = (r \<noteq> None)"
| "no_sentinel (Log l m) = (\<not> sentinel_msg m)"
| "no_sentinel _ = True"


text \<open>
  A property of events that holds of everything a run of \<open>cli\<close> can emit, the pass being
  called with \<open>only_if_package_seen = False\<close>.
\<close>

definition run_events :: "'w env \<Rightarrow> (event \<Rightarrow> bool) \<Rightarrow> bool" where
  "run_events env P =
     (pass_events env False P \<and> P Connect \<and> P NamesAll \<and> (\<forall>f j. P (ReadPackageNames f j)) \<and>
      (\<forall>u. P (HttpGet u)) \<and> (\<forall>p. P (OpenFile p)) \<and> P ObserveTime \<and>
      (\<forall>u b. P (PushToGateway u b)))"

text \<open>\<open>trigger.get("tls_verify", True)\<close> of a trigger that is a dict.\<close>

definition tls_verify :: "yaml \<Rightarrow> yaml" where
  "tls_verify trigger = (case dict_get trigger ''tls_verify'' (YBool True) of Inr v \<Rightarrow> v | Inl e \<Rightarrow> YBool True)"

text \<open>A delivery attempt.\<close>

fun is_post :: "event \<Rightarrow> bool" where
  "is_post (HttpPost call ok) = True"
| "is_post _ = False"

text \<open>A delivery that was attempted and succeeded.\<close>

fun delivered :: "event \<Rightarrow> bool" where
  "delivered (HttpPost call ok) = ok"
| "delivered _ = False"

definition deliveries :: "event list \<Rightarrow> nat" where
  "deliveries evs = length (filter delivered evs)"

section \<open>The state and the trace\<close>

lemma trace_emit [simp]: "trace (emit evs st) = trace st @ evs"
  by (simp add: emit_def)
lemma world_emit [simp]: "world (emit evs st) = world st"
  by (simp add: emit_def)
lemma added_emit [simp]: "packages_added (emit evs st) = packages_added st"
  by (simp add: emit_def)
lemma notified_emit [simp]: "packages_notified (emit evs st) = packages_notified st"
  by (simp add: emit_def)
lemma trace_inc_added [simp]: "trace (inc_added st) = trace st"
  by (simp add: inc_added_def)
lemma trace_inc_notified [simp]: "trace (inc_notified st) = trace st"
  by (simp add: inc_notified_def)
lemma world_inc_added [simp]: "world (inc_added st) = world st"
  by (simp add: inc_added_def)
lemma world_inc_notified [simp]: "world (inc_notified st) = world st"
  by (simp add: inc_notified_def)
lemma added_inc_added [simp]: "packages_added (inc_added st) = Suc (packages_added st)"
  by (simp add: inc_added_def)
lemma added_inc_notified [simp]: "packages_added (inc_notified st) = packages_added st"
  by (simp add: inc_notified_def)
lemma notified_inc_added [simp]: "packages_notified (inc_added st) = packages_notified st"
  by (simp add: inc_added_def)
lemma notified_inc_notified [simp]: "packages_notified (inc_notified st) = Suc (packages_notified st)"
  by (simp add: inc_notified_def)

lemma notify_trigger_events:
  assumes "\<And>l m. \<not> sentinel_msg m \<Longrightarrow> P (Log l m)" and "\<And>c b. P (HttpPost c b)"
    and "notify_trigger env name version url trigger st = (ok, st')"
    and "list_all P (trace st)"
  shows "list_all P (trace st')"
  using assms by (auto simp add: notify_trigger_def Let_def split: sum.splits prod.splits option.splits)

lemma triggers_loop_events:
  assumes "\<And>l m. \<not> sentinel_msg m \<Longrightarrow> P (Log l m)" and "\<And>c b. P (HttpPost c b)"
  shows "triggers_loop env name version url ts was st = (r, st') \<Longrightarrow> list_all P (trace st)
    \<Longrightarrow> list_all P (trace st')"
proof (induction ts arbitrary: was st)
  case Nil
  then show ?case by simp
next
  case (Cons t ts)
  obtain ok st1 where eq: "notify_trigger env name version url t st = (ok, st1)"
    by (cases "notify_trigger env name version url t st")
  have "list_all P (trace st1)"
    using assms eq Cons.prems(2) by (rule notify_trigger_events)
  then show ?case
    using Cons.IH[of "was \<or> ok" st1] Cons.prems(1) by (simp add: eq)
qed

lemma release_notification_events:
  assumes "\<And>l m. \<not> sentinel_msg m \<Longrightarrow> P (Log l m)" and "\<And>c b. P (HttpPost c b)"
    and "release_notification env mon name version url st = (r, st')"
    and "list_all P (trace st)"
  shows "list_all P (trace st')"
  using assms(3,4) triggers_loop_events[of P env name version url _ False st _ st', OF assms(1,2)]
  by (auto simp add: release_notification_def split: sum.splits prod.splits)

lemma process_version_events:
  assumes "\<And>l m. \<not> sentinel_msg m \<Longrightarrow> P (Log l m)" and "\<And>c b. P (HttpPost c b)"
    and "\<And>n v u e. P (CreateEntityRaised n v u s e)"
    and "\<And>n v u a. P (CreateEntity n v u s (Some a))"
    and "\<And>w n v u w'. create_python_package_version_entity env w n v u s = (Inr None, w')
           \<Longrightarrow> P (CreateEntity n v u s None) \<and> P (Log DEBUG (NotPreviouslySeen n v u))"
    and "process_version env mon s url name v st = (r, st')"
    and "list_all P (trace st)"
  shows "list_all P (trace st')"
  using assms(3-7) assms(1)
  by (auto simp add: process_version_def Let_def
      split: sum.splits prod.splits option.splits if_splits
      dest!: release_notification_events[of P, OF assms(1,2), rotated 1])

lemma versions_loop_events:
  assumes "\<And>l m. \<not> sentinel_msg m \<Longrightarrow> P (Log l m)" and "\<And>c b. P (HttpPost c b)"
    and "\<And>n v u e. P (CreateEntityRaised n v u s e)"
    and "\<And>n v u a. P (CreateEntity n v u s (Some a))"
    and "\<And>w n v u w'. create_python_package_version_entity env w n v u s = (Inr None, w')
           \<Longrightarrow> P (CreateEntity n v u s None) \<and> P (Log DEBUG (NotPreviouslySeen n v u))"
  shows "versions_loop env mon s url name vs st = (r, st') \<Longrightarrow> list_all P (trace st)
    \<Longrightarrow> list_all P (trace st')"
proof (induction vs arbitrary: st)
  case Nil
  then show ?case by simp
next
  case (Cons v vs)
  obtain r1 st1 where eq: "process_version env mon s url name v st = (r1, st1)"
    by (cases "process_version env mon s url name v st")
  have p1: "list_all P (trace st1)"
    using assms eq Cons.prems(2) by (rule process_version_events)
  show ?case
  proof (cases r1)
    case None
    then show ?thesis using Cons.IH[of st1] Cons.prems(1) p1 by (simp add: eq)
  next
    case (Some e)
    then show ?thesis using Cons.prems(1) p1 by (simp add: eq)
  qed
qed

section \<open>The gauge of added packages follows the create calls\<close>

lemma added_events_append [simp]: "added_events (xs @ ys) = added_events xs + added_events ys"
  by (simp add: added_events_def)

lemma added_events_simps [simp]:
  "added_events [] = 0"
  "added_events (ev # evs) = (if new_release ev then Suc (added_events evs) else added_events evs)"
  by (simp_all add: added_events_def)

lemma notify_trigger_filter:
  assumes "notif_only Q" and "notify_trigger env name version url trigger st = (ok, st')"
  shows "filter Q (trace st') = filter Q (trace st) \<and> packages_added st' = packages_added st
         \<and> packages_notified st' = packages_notified st"
  using assms
  by (auto simp add: notif_only_def notify_trigger_def Let_def
      split: sum.splits prod.splits option.splits)

lemma triggers_loop_filter:
  assumes "notif_only Q"
  shows "triggers_loop env name version url ts was st = (r, st') \<Longrightarrow>
         filter Q (trace st') = filter Q (trace st) \<and> packages_added st' = packages_added st
         \<and> packages_notified st' = packages_notified st"
proof (induction ts arbitrary: was st)
  case Nil
  then show ?case by simp
next
  case (Cons t ts)
  obtain ok st1 where eq: "notify_trigger env name version url t st = (ok, st1)"
    by (cases "notify_trigger env name version url t st")
  note n = notify_trigger_filter[OF assms eq]
  have "triggers_loop env name version url ts (was \<or> ok) st1 = (r, st')"
    using Cons.prems by (simp add: eq)
  from Cons.IH[OF this] n show ?case by simp
qed

lemma release_notification_filter:
  assumes "notif_only Q" and "release_notification env mon name version url st = (r, st')"
  shows "filter Q (trace st') = filter Q (trace st) \<and> packages_added st' = packages_added st
         \<and> packages_notified st' = packages_notified st"
  using assms(2) triggers_loop_filter[OF assms(1), of env name version url _ False st _ st']
  by (auto simp add: release_notification_def split: sum.splits prod.splits)

lemma notif_only_new_release: "notif_only new_release"
  by (simp add: notif_only_def)

lemma release_notification_added:
  assumes "release_notification env mon name version url st = (r, st')"
  shows "added_events (trace st') = added_events (trace st) \<and> packages_added st' = packages_added st"
  using release_notification_filter[OF notif_only_new_release assms]
  by (simp add: added_events_def)

lemma process_version_added:
  assumes "process_version env mon s url name v st = (r, st')"
  shows "packages_added st' + added_events (trace st) = packages_added st + added_events (trace st')"
  using assms
  by (auto simp add: process_version_def Let_def
      split: sum.splits prod.splits option.splits if_splits
      dest!: release_notification_added)

lemma versions_loop_added:
  "versions_loop env mon s url name vs st = (r, st') \<Longrightarrow>
   packages_added st' + added_events (trace st) = packages_added st + added_events (trace st')"
proof (induction vs arbitrary: st)
  case Nil
  then show ?case by simp
next
  case (Cons v vs)
  obtain r1 st1 where eq: "process_version env mon s url name v st = (r1, st1)"
    by (cases "process_version env mon s url name v st")
  note a = process_version_added[OF eq]
  show ?case
  proof (cases r1)
    case None
    then have "versions_loop env mon s url name vs st1 = (r, st')"
      using Cons.prems by (simp add: eq)
    from Cons.IH[OF this] a show ?thesis by simp
  next
    case (Some e)
    then show ?thesis using Cons.prems a by (simp add: eq)
  qed
qed

lemma process_package_added:
  assumes "process_package env mon s url name st = (r, st')"
  shows "packages_added st' + added_events (trace st) = packages_added st + added_events (trace st')"
  using assms
  by (auto simp add: process_package_def Let_def split: sum.splits prod.splits
      dest!: versions_loop_added)

lemma packages_loop_added:
  "packages_loop env mon s url names st = (r, st') \<Longrightarrow>
   packages_added st' + added_events (trace st) = packages_added st + added_events (trace st')"
proof (induction names arbitrary: st)
  case Nil
  then show ?case by simp
next
  case (Cons n ns)
  obtain r1 st1 where eq: "process_package env mon s url n st = (r1, st1)"
    by (cases "process_package env mon s url n st")
  note a = process_package_added[OF eq]
  show ?case
  proof (cases r1)
    case None
    then have "packages_loop env mon s url ns st1 = (r, st')"
      using Cons.prems by (simp add: eq)
    from Cons.IH[OF this] a show ?thesis by simp
  next
    case (Some e)
    then show ?thesis using Cons.prems a by (simp add: eq)
  qed
qed

lemma candidates_added:
  assumes "candidates env package_names url st = (r, st')"
  shows "packages_added st' = packages_added st \<and> added_events (trace st') = added_events (trace st)"
  using assms
  by (auto simp add: candidates_def Let_def split: option.splits list.splits prod.splits)

lemma process_index_added:
  assumes "process_index env mon package_names s url st = (r, st')"
  shows "packages_added st' + added_events (trace st) = packages_added st + added_events (trace st')"
  using assms
  by (auto simp add: process_index_def split: sum.splits prod.splits
      dest!: packages_loop_added candidates_added)

lemma sources_loop_added:
  "sources_loop env mon package_names s urls st = (r, st') \<Longrightarrow>
   packages_added st' + added_events (trace st) = packages_added st + added_events (trace st')"
proof (induction urls arbitrary: st)
  case Nil
  then show ?case by simp
next
  case (Cons u us)
  obtain r1 st1 where eq: "process_index env mon package_names s u st = (r1, st1)"
    by (cases "process_index env mon package_names s u st")
  note a = process_index_added[OF eq]
  show ?case
  proof (cases r1)
    case None
    then have "sources_loop env mon package_names s us st1 = (r, st')"
      using Cons.prems by (simp add: eq)
    from Cons.IH[OF this] a show ?thesis by simp
  next
    case (Some e)
    then show ?thesis using Cons.prems a by (simp add: eq)
  qed
qed

lemma package_releases_update_added:
  assumes "package_releases_update env mon package_names s st = (r, st')"
  shows "packages_added st' + added_events (trace st) = packages_added st + added_events (trace st')"
  using assms
  by (auto simp add: package_releases_update_def Let_def split: sum.splits prod.splits
      dest!: sources_loop_added)








section \<open>Evaluating the concrete world\<close>

lemmas demo_simps =
  demo_env_def demo_index_def widget_config_def store_create_def format_plain_def
  init_state_def emit_def inc_added_def inc_notified_def
  package_releases_update_def process_index_def candidates_def process_package_def
  process_version_def release_notification_def triggers_of_def notify_trigger_def
  build_request_def format_url_def explicit_keywords_def startswith_def
  cli_def connect_and_run_def update_and_push_def push_metrics_def
  resolve_package_names_def load_package_monitoring_config_def

section \<open>Events of a reconciliation pass\<close>

lemma versions_loop_pass_events:
  assumes "pass_events env s P" and "versions_loop env mon s url name vs st = (r, st')"
    and "list_all P (trace st)"
  shows "list_all P (trace st')"
proof (rule versions_loop_events[of P s env, OF _ _ _ _ _ assms(2,3)])
  show "\<And>l m. \<not> sentinel_msg m \<Longrightarrow> P (Log l m)"
    using assms(1) unfolding pass_events_def by blast
  show "\<And>c b. P (HttpPost c b)"
    using assms(1) unfolding pass_events_def by blast
  show "\<And>n v u e. P (CreateEntityRaised n v u s e)"
    using assms(1) unfolding pass_events_def by blast
  show "\<And>n v u a. P (CreateEntity n v u s (Some a))"
    using assms(1) unfolding pass_events_def by blast
  show "\<And>w n v u w'. create_python_package_version_entity env w n v u s = (Inr None, w')
           \<Longrightarrow> P (CreateEntity n v u s None) \<and> P (Log DEBUG (NotPreviouslySeen n v u))"
    using assms(1) unfolding pass_events_def by blast
qed

lemma process_package_events:
  assumes "pass_events env s P" and "process_package env mon s url name st = (r, st')"
    and "list_all P (trace st)"
  shows "list_all P (trace st')"
proof -
  have l: "\<And>l m. \<not> sentinel_msg m \<Longrightarrow> P (Log l m)" and g: "P (GetPackageVersions url name)"
    using assms(1) unfolding pass_events_def by blast+
  obtain res w' where c: "get_package_versions env (world st) url name = (res, w')"
    by (cases "get_package_versions env (world st) url name")
  show ?thesis
  proof (cases res)
    case (Inl e)
    then show ?thesis using assms(2,3) c l g
      by (auto simp add: process_package_def Let_def)
  next
    case (Inr vs)
    have "list_all P (trace (emit [GetPackageVersions url name] st\<lparr>world := w'\<rparr>))"
      using assms(3) g by simp
    moreover have "versions_loop env mon s url name vs
        (emit [GetPackageVersions url name] st\<lparr>world := w'\<rparr>) = (r, st')"
      using assms(2) c Inr by (simp add: process_package_def Let_def)
    ultimately show ?thesis
      using versions_loop_pass_events[OF assms(1)] by blast
  qed
qed

lemma packages_loop_events:
  assumes "pass_events env s P"
  shows "packages_loop env mon s url names st = (r, st') \<Longrightarrow> list_all P (trace st)
    \<Longrightarrow> list_all P (trace st')"
proof (induction names arbitrary: st)
  case Nil
  then show ?case by simp
next
  case (Cons n ns)
  obtain r1 st1 where eq: "process_package env mon s url n st = (r1, st1)"
    by (cases "process_package env mon s url n st")
  have p1: "list_all P (trace st1)"
    using assms eq Cons.prems(2) by (rule process_package_events)
  show ?case
  proof (cases r1)
    case None
    then show ?thesis using Cons.IH[of st1] Cons.prems(1) p1 by (simp add: eq)
  next
    case (Some e)
    then show ?thesis using Cons.prems(1) p1 by (simp add: eq)
  qed
qed

lemma candidates_events:
  assumes "pass_events env s P" and "candidates env package_names url st = (r, st')"
    and "list_all P (trace st)"
  shows "list_all P (trace st')"
proof -
  have "P (GetPackages url)" using assms(1) unfolding pass_events_def by blast
  then show ?thesis
    using assms(2,3)
    by (auto simp add: candidates_def Let_def split: option.splits list.splits prod.splits)
qed

lemma process_index_events:
  assumes "pass_events env s P" and "process_index env mon package_names s url st = (r, st')"
    and "list_all P (trace st)"
  shows "list_all P (trace st')"
proof -
  have l: "P (Log INFO (CheckingIndex url))"
    using assms(1) unfolding pass_events_def by simp
  obtain c st1 where eq: "candidates env package_names url (emit [Log INFO (CheckingIndex url)] st) = (c, st1)"
    by (cases "candidates env package_names url (emit [Log INFO (CheckingIndex url)] st)")
  have p1: "list_all P (trace st1)"
    using assms(1) eq by (rule candidates_events) (simp add: assms(3) l)
  show ?thesis
  proof (cases c)
    case (Inl e)
    then show ?thesis using assms(2) eq p1 by (simp add: process_index_def)
  next
    case (Inr names)
    then have "packages_loop env mon s url names st1 = (r, st')"
      using assms(2) eq by (simp add: process_index_def)
    then show ?thesis using p1 by (rule packages_loop_events[OF assms(1)])
  qed
qed

lemma sources_loop_events:
  assumes "pass_events env s P"
  shows "sources_loop env mon package_names s urls st = (r, st') \<Longrightarrow> list_all P (trace st)
    \<Longrightarrow> list_all P (trace st')"
proof (induction urls arbitrary: st)
  case Nil
  then show ?case by simp
next
  case (Cons u us)
  obtain r1 st1 where eq: "process_index env mon package_names s u st = (r1, st1)"
    by (cases "process_index env mon package_names s u st")
  have p1: "list_all P (trace st1)"
    using assms eq Cons.prems(2) by (rule process_index_events)
  show ?case
  proof (cases r1)
    case None
    then show ?thesis using Cons.IH[of st1] Cons.prems(1) p1 by (simp add: eq)
  next
    case (Some e)
    then show ?thesis using Cons.prems(1) p1 by (simp add: eq)
  qed
qed

lemma package_releases_update_events:
  assumes "pass_events env s P" and "package_releases_update env mon package_names s st = (r, st')"
    and "list_all P (trace st)"
  shows "list_all P (trace st')"
proof -
  have i: "P IndexAll" using assms(1) unfolding pass_events_def by blast
  obtain res w' where c: "get_python_package_index_all env (world st) = (res, w')"
    by (cases "get_python_package_index_all env (world st)")
  show ?thesis
  proof (cases res)
    case (Inl e)
    then show ?thesis using assms(2,3) c i
      by (auto simp add: package_releases_update_def Let_def)
  next
    case (Inr urls)
    have "list_all P (trace (emit [IndexAll] st\<lparr>world := w'\<rparr>))"
      using assms(3) i by simp
    moreover have "sources_loop env mon package_names s urls (emit [IndexAll] st\<lparr>world := w'\<rparr>) = (r, st')"
      using assms(2) c Inr by (simp add: package_releases_update_def Let_def)
    ultimately show ?thesis
      using sources_loop_events[OF assms(1)] by blast
  qed
qed

section \<open>A second pass\<close>

text \<open>
  C5. When every create call of a reconciliation pass reports that the tuple was there
  already (or creates nothing), as on a second pass over an unchanged index with the store
  holding every tuple of the first pass, the gauge of added packages is not incremented:
  started at zero, it is zero at the end of the pass.
\<close>

theorem second_pass_adds_nothing:
  assumes "list_all (\<lambda>ev. \<not> new_release ev)
             (trace (snd (package_releases_update env monitored_packages package_names
                            only_if_package_seen (init_state w))))"
  shows "packages_added (snd (package_releases_update env monitored_packages package_names
                                only_if_package_seen (init_state w))) = 0"
proof -
  let ?st' = "snd (package_releases_update env monitored_packages package_names
                     only_if_package_seen (init_state w))"
  have "added_events (trace ?st') = 0"
    using assms by (simp add: added_events_def list_all_iff)
  moreover have "packages_added ?st' + added_events (trace (init_state w))
      = packages_added (init_state w) + added_events (trace ?st')"
    by (rule package_releases_update_added[OF prod.collapse[symmetric]])
  ultimately show ?thesis by (simp add: init_state_def)
qed

theorem second_pass_adds_nothing_witness:
  "packages_added (snd (package_releases_update demo_env widget_config (Some [''widget'']) False
      (init_state (world (snd (package_releases_update demo_env widget_config (Some [''widget''])
         False (init_state []))))))) = 0
   \<and> packages_added (snd (package_releases_update demo_env widget_config (Some [''widget''])
         False (init_state []))) = 2"
proof -
  have w: "world (snd (package_releases_update demo_env widget_config (Some [''widget''])
         False (init_state []))) = [(''widget'', ''1.0'', demo_index), (''widget'', ''1.1'', demo_index)]"
    by (simp add: demo_simps)
  have h: "list_all (\<lambda>ev. \<not> new_release ev)
             (trace (snd (package_releases_update demo_env widget_config (Some [''widget'']) False
                (init_state [(''widget'', ''1.0'', demo_index), (''widget'', ''1.1'', demo_index)]))))"
    by (simp add: demo_simps)
  have "packages_added (snd (package_releases_update demo_env widget_config (Some [''widget''])
         False (init_state []))) = 2"
    by (simp add: demo_simps)
  then show ?thesis
    using second_pass_adds_nothing[OF h] w by simp
qed

section \<open>Failure isolation\<close>

text \<open>
  C6. When \<open>get_package_versions\<close> raises for a package, whatever the exception, the
  loop over the candidates goes on with the packages after it exactly as it would have
  without that package: the only traces are the call and one log record, at debug level
  for \<open>NotFound\<close> and as an error for any other exception; no create call is made for the
  package. When the package was the last candidate of its index, the loop over the
  indices goes on with the next index.
\<close>

theorem version_retrieval_failure_skips_only_that_package:
  assumes "get_package_versions env (world st) url name = (Inl e, w')"
  shows "packages_loop env monitored_packages only_if_package_seen url (name # rest) st =
           packages_loop env monitored_packages only_if_package_seen url rest
             (emit [GetPackageVersions url name,
                    if e = NotFound then Log DEBUG (NoVersionsFound name url e)
                    else Log ERROR (RetrieveVersionsFailed name e)] (st\<lparr>world := w'\<rparr>))
         \<and> sources_loop env monitored_packages (Some [name]) only_if_package_seen (url # urls) st =
           sources_loop env monitored_packages (Some [name]) only_if_package_seen urls
             (emit [Log INFO (CheckingIndex url), GetPackageVersions url name,
                    if e = NotFound then Log DEBUG (NoVersionsFound name url e)
                    else Log ERROR (RetrieveVersionsFailed name e)] (st\<lparr>world := w'\<rparr>))"
  using assms
  by (simp add: process_package_def process_index_def candidates_def Let_def emit_def)

theorem version_retrieval_failure_skips_only_that_package_witness:
  "get_package_versions demo_env (world (init_state [])) demo_index ''ghost'' = (Inl NotFound, [])
   \<and> packages_loop demo_env YNull False demo_index [''ghost'', ''widget''] (init_state []) =
       packages_loop demo_env YNull False demo_index [''widget'']
         (emit [GetPackageVersions demo_index ''ghost'',
                Log DEBUG (NoVersionsFound ''ghost'' demo_index NotFound)] (init_state []))
   \<and> packages_added (snd (packages_loop demo_env YNull False demo_index [''ghost'', ''widget'']
        (init_state []))) = 2"
proof -
  have h: "get_package_versions demo_env (world (init_state [])) demo_index ''ghost'' = (Inl NotFound, [])"
    by (simp add: demo_env_def init_state_def)
  have "packages_added (snd (packages_loop demo_env YNull False demo_index [''ghost'', ''widget'']
        (init_state []))) = 2"
    by (simp add: demo_simps)
  then show ?thesis
    using h version_retrieval_failure_skips_only_that_package[OF h, of YNull False "[''widget'']" "[]"]
    by (simp add: init_state_def)
qed

section \<open>Configuration errors\<close>

text \<open>
  C9. An option counts as supplied when it is a non-empty string. When a JSONPath
  expression is supplied without a file, a file without a JSONPath expression, the
  only-if-package-seen flag together with a file or a JSONPath expression, or when the
  file is read and the resolved list of names is empty, the process ends with an exit
  status other than zero, and up to that point no call has left the machine: no index,
  store or notification call is among the events.
\<close>

theorem configuration_errors_end_the_process_before_any_network_io:
  assumes "(supplied jsonpath \<and> \<not> supplied file) \<or> (\<not> supplied jsonpath \<and> supplied file)
           \<or> (only_if_seen \<and> (supplied file \<or> supplied jsonpath))
           \<or> (supplied file \<and> supplied jsonpath \<and>
               (case read_package_names env (world st) (the file) (the jsonpath) of
                  (Inr items, w') \<Rightarrow> items_loop items [] = Inr []
                | (Inl e, w') \<Rightarrow> False))"
  shows "exit_status (fst (cli env verbose monitoring_config only_if_seen file jsonpath st)) \<noteq> 0
         \<and> filter network_io (trace (snd (cli env verbose monitoring_config only_if_seen file jsonpath st)))
             = filter network_io (trace st)"
  using assms
  by (auto simp add: cli_def Let_def resolve_package_names_def split: prod.splits sum.splits)

theorem configuration_errors_end_the_process_before_any_network_io_witness:
  "exit_status (fst (cli demo_env False None True (Some ''names.yaml'') (Some ''$.packages'') (init_state []))) \<noteq> 0
   \<and> filter network_io (trace (snd (cli demo_env False None True (Some ''names.yaml'') (Some ''$.packages'') (init_state [])))) = []"
  using configuration_errors_end_the_process_before_any_network_io
          [of "Some ''$.packages''" "Some ''names.yaml''" True demo_env "init_state []" False None]
  by (simp add: init_state_def)

section \<open>Events that the loops never emit\<close>











section \<open>Events of a run of the job\<close>

lemma run_events_log: "run_events env P \<Longrightarrow> \<not> sentinel_msg m \<Longrightarrow> P (Log l m)"
  by (simp add: run_events_def pass_events_def)

lemma resolve_package_names_events:
  assumes "run_events env P" and "resolve_package_names env file jsonpath st = (r, st')"
    and "list_all P (trace st)"
  shows "list_all P (trace st')"
proof -
  have "P (ReadPackageNames file jsonpath)" "P (Log WARNING NoPackagesToCheck)"
    using assms(1) run_events_log[OF assms(1)] unfolding run_events_def by simp_all
  then show ?thesis
    using assms(2,3)
    by (auto simp add: resolve_package_names_def Let_def split: sum.splits prod.splits if_splits)
qed

lemma load_package_monitoring_config_events:
  assumes "run_events env P" and "load_package_monitoring_config env path st = (r, st')"
    and "list_all P (trace st)"
  shows "list_all P (trace st')"
proof -
  have "P (HttpGet path)" "P (OpenFile path)" "P (Log DEBUG (LoadingRemoteConfig path))"
    "P (Log DEBUG (LoadingLocalConfig path))"
    using assms(1) run_events_log[OF assms(1)] unfolding run_events_def by simp_all
  then show ?thesis
    using assms(2,3)
    by (auto simp add: load_package_monitoring_config_def Let_def split: prod.splits if_splits)
qed

lemma push_metrics_events:
  assumes "run_events env P" and "list_all P (trace st)"
  shows "list_all P (trace (push_metrics env st))"
proof -
  have "\<And>u b. P (PushToGateway u b)" "\<And>u. P (Log INFO (SubmittingMetrics u))"
    "\<And>e. P (Log ERROR (PushFailed e))"
    using assms(1) run_events_log[OF assms(1)] unfolding run_events_def by simp_all
  then show ?thesis
    using assms(2)
    by (auto simp add: push_metrics_def Let_def split: prod.splits option.splits)
qed

lemma update_and_push_events:
  assumes "run_events env P" and "update_and_push env mon names st = (out, st')"
    and "list_all P (trace st)"
  shows "list_all P (trace st')"
proof -
  obtain r st1 where eq: "package_releases_update env mon names False st = (r, st1)"
    by (cases "package_releases_update env mon names False st")
  have "pass_events env False P" and o: "P ObserveTime"
    using assms(1) unfolding run_events_def by simp_all
  then have "list_all P (trace st1)"
    using eq assms(3) package_releases_update_events by blast
  then have "list_all P (trace (emit [ObserveTime] st1))"
    using o by simp
  then have "list_all P (trace (push_metrics env (emit [ObserveTime] st1)))"
    by (rule push_metrics_events[OF assms(1)])
  then show ?thesis
    using assms(2) by (auto simp add: update_and_push_def eq)
qed

lemma connect_and_run_events:
  assumes "run_events env P" and "connect_and_run env mc ois package_names st = (out, st')"
    and "list_all P (trace st)"
  shows "list_all P (trace st')"
proof -
  have p: "P Connect" "P NamesAll" "\<And>p. P (Log ERROR (LoadConfigFailed p))"
    using assms(1) run_events_log[OF assms(1)] unfolding run_events_def by simp_all
  show ?thesis
    using assms(2,3) p
    by (auto simp add: connect_and_run_def Let_def
        split: prod.splits option.splits sum.splits if_splits
        dest!: update_and_push_events[OF assms(1)]
               load_package_monitoring_config_events[OF assms(1)])
qed

lemma cli_events:
  assumes "run_events env P" and "cli env verbose mc ois file jsonpath st = (out, st')"
    and "list_all P (trace st)"
  shows "list_all P (trace st')"
proof -
  have p: "P (Log DEBUG DebugModeOn)" "P (Log INFO VersionInfo)"
    using run_events_log[OF assms(1)] by simp_all
  show ?thesis
    using assms(2,3) p
    by (auto simp add: cli_def Let_def
        split: prod.splits sum.splits if_splits
        dest!: connect_and_run_events[OF assms(1)] resolve_package_names_events[OF assms(1)])
qed

lemma run_events_seen_flag_off: "run_events env seen_flag_off"
  by (simp add: run_events_def pass_events_def)

lemma run_events_no_sentinel:
  assumes "\<forall>w n v u. fst (create_python_package_version_entity env w n v u False) \<noteq> Inr None"
  shows "run_events env no_sentinel"
proof -
  have "\<And>w n v u w'. create_python_package_version_entity env w n v u False \<noteq> (Inr None, w')"
    using assms by (metis fst_conv)
  then show ?thesis
    by (simp add: run_events_def pass_events_def)
qed

text \<open>
  C10. \<open>cli\<close> calls the pass without the only-if-package-seen flag, whatever its own
  flag is. So every create call of a run of the job, the one that raises included, is
  made with \<open>only_if_package_seen = False\<close>. With a store that answers \<open>None\<close> only when
  it is asked for seen packages only, no create call of the run is answered with \<open>None\<close>
  and the log record of the sentinel branch never appears.
\<close>

theorem cli_never_asks_for_seen_packages_only:
  "list_all seen_flag_off
     (trace (snd (cli env verbose monitoring_config only_if_package_seen file jsonpath (init_state w))))
   \<and> ((\<forall>w n v u. fst (create_python_package_version_entity env w n v u False) \<noteq> Inr None) \<longrightarrow>
      list_all no_sentinel
        (trace (snd (cli env verbose monitoring_config only_if_package_seen file jsonpath (init_state w)))))"
proof (intro conjI impI)
  show "list_all seen_flag_off
     (trace (snd (cli env verbose monitoring_config only_if_package_seen file jsonpath (init_state w))))"
    by (rule cli_events[OF run_events_seen_flag_off prod.collapse[symmetric]])
       (simp add: init_state_def)
next
  assume "\<forall>w n v u. fst (create_python_package_version_entity env w n v u False) \<noteq> Inr None"
  then have "run_events env no_sentinel" by (rule run_events_no_sentinel)
  then show "list_all no_sentinel
        (trace (snd (cli env verbose monitoring_config only_if_package_seen file jsonpath (init_state w))))"
    by (rule cli_events[OF _ prod.collapse[symmetric]]) (simp add: init_state_def)
qed

theorem cli_never_asks_for_seen_packages_only_witness:
  "(\<forall>w n v u. fst (create_python_package_version_entity demo_env w n v u False) \<noteq> Inr None)
   \<and> list_all seen_flag_off (trace (snd (cli demo_env False None True None None (init_state []))))
   \<and> list_all no_sentinel (trace (snd (cli demo_env False None True None None (init_state []))))
   \<and> CreateEntity ''widget'' ''1.0'' demo_index False
        (Some (Entity ''widget'' ''1.0'' demo_index, False))
       \<in> set (trace (snd (cli demo_env False None True None None (init_state []))))"
proof -
  have h: "\<forall>w n v u. fst (create_python_package_version_entity demo_env w n v u False) \<noteq> Inr None"
    by (simp add: demo_env_def store_create_def)
  have "CreateEntity ''widget'' ''1.0'' demo_index False
        (Some (Entity ''widget'' ''1.0'' demo_index, False))
       \<in> set (trace (snd (cli demo_env False None True None None (init_state []))))"
    by (simp add: demo_simps Let_def)
  then show ?thesis
    using h cli_never_asks_for_seen_packages_only[of demo_env False None True None None "[]"]
    by blast
qed

section \<open>The metrics push\<close>




section \<open>TLS verification of a delivery\<close>

text \<open>
  C7, as amended. Every delivery attempt of the loop body comes from a trigger whose
  \<open>url\<close> is a string; the URL posted to is that string rendered, and the \<open>verify\<close>
  keyword is passed exactly when the string as configured, before any placeholder is
  substituted, starts with \<open>https://\<close>. Its value is then the \<open>tls_verify\<close> entry of the
  trigger, \<open>True\<close> when there is none.
\<close>

theorem verify_follows_the_configured_url:
  assumes "HttpPost call ok \<in> set (trace (snd (notify_trigger env name version url trigger st)))"
    and "HttpPost call ok \<notin> set (trace st)"
  shows "\<exists>template. subscript trigger ''url'' = Inr (YStr template)
           \<and> format_url env template name version url = Inr (post_url call)
           \<and> post_verify call =
               (if startswith template ''https://'' then Some (tls_verify trigger) else None)"
proof -
  obtain t where s: "subscript trigger ''url'' = Inr t"
    using assms
    by (cases "subscript trigger ''url''")
       (auto simp add: notify_trigger_def build_request_def Let_def)
  obtain kvs where d: "trigger = YDict kvs"
    using s by (cases trigger) auto
  show ?thesis
    using assms s d
    by (cases t)
       (auto simp add: notify_trigger_def build_request_def Let_def tls_verify_def
          split: sum.splits prod.splits option.splits if_splits)
qed

theorem verify_follows_the_configured_url_witness:
  "HttpPost (PostCall ''https://hook/widget'' (explicit_keywords demo_env ''widget'' ''1.0'' demo_index)
       (Some (YBool False))) True
     \<in> set (trace (snd (notify_trigger demo_env ''widget'' ''1.0'' demo_index https_trigger (init_state []))))
   \<and> (\<exists>template. subscript https_trigger ''url'' = Inr (YStr template)
           \<and> format_url demo_env template ''widget'' ''1.0'' demo_index = Inr ''https://hook/widget''
           \<and> Some (YBool False) =
               (if startswith template ''https://'' then Some (tls_verify https_trigger) else None))"
proof -
  have h: "HttpPost (PostCall ''https://hook/widget'' (explicit_keywords demo_env ''widget'' ''1.0'' demo_index)
       (Some (YBool False))) True
     \<in> set (trace (snd (notify_trigger demo_env ''widget'' ''1.0'' demo_index https_trigger (init_state []))))"
    by (simp add: demo_simps https_trigger_def Let_def)
  have n: "HttpPost (PostCall ''https://hook/widget'' (explicit_keywords demo_env ''widget'' ''1.0'' demo_index)
       (Some (YBool False))) True \<notin> set (trace (init_state []))"
    by (simp add: init_state_def)
  show ?thesis
    using h verify_follows_the_configured_url[OF h n] by simp
qed

text \<open>
  C7 as stated fails: the template \<open>{index_url}/notify\<close> renders to a URL with the
  \<open>https\<close> scheme, and the delivery is made without the \<open>verify\<close> keyword although the
  trigger sets \<open>tls_verify\<close>.
\<close>

theorem verify_not_passed_for_rendered_https_url:
  "HttpPost (PostCall ''https://pypi.org/simple/notify''
       [(''package_name'', ''widget''), (''package_version'', ''1.0''),
        (''index_url'', ''https://pypi.org/simple''), (''thoth_deployment_name'', ''test'')]
       None) True
     \<in> set (trace (snd (release_notification demo_env index_url_config ''widget'' ''1.0''
                           ''https://pypi.org/simple'' (init_state []))))
   \<and> startswith ''https://pypi.org/simple/notify'' ''https://''"
  by (simp add: demo_simps index_url_config_def Let_def)

section \<open>What the dispatcher returns and which names are walked\<close>

text \<open>
  \<open>release_notification\<close> returns \<open>True\<close> exactly when one of its deliveries was attempted
  and succeeded.
\<close>

lemma deliveries_append [simp]: "deliveries (xs @ ys) = deliveries xs + deliveries ys"
  by (simp add: deliveries_def)

lemma deliveries_simps [simp]:
  "deliveries [] = 0"
  "deliveries (ev # evs) = (if delivered ev then Suc (deliveries evs) else deliveries evs)"
  by (simp_all add: deliveries_def)

lemma notify_trigger_result:
  assumes "notify_trigger env name version url trigger st = (ok, st')"
  shows "deliveries (trace st') = deliveries (trace st) + (if ok then 1 else 0)"
  using assms
  by (auto simp add: notify_trigger_def Let_def split: sum.splits prod.splits option.splits)

lemma triggers_loop_result:
  "triggers_loop env name version url ts was st = (r, st') \<Longrightarrow>
   deliveries (trace st) \<le> deliveries (trace st')
   \<and> r = (was \<or> deliveries (trace st) < deliveries (trace st'))"
proof (induction ts arbitrary: was st)
  case Nil
  then show ?case by simp
next
  case (Cons t ts)
  obtain ok st1 where eq: "notify_trigger env name version url t st = (ok, st1)"
    by (cases "notify_trigger env name version url t st")
  note n = notify_trigger_result[OF eq]
  have "triggers_loop env name version url ts (was \<or> ok) st1 = (r, st')"
    using Cons.prems by (simp add: eq)
  from Cons.IH[OF this] n show ?case by (auto split: if_splits)
qed

lemma release_notification_returns_whether_a_delivery_succeeded:
  assumes "release_notification env monitored_packages name version url st = (Inr was_triggered, st')"
  shows "was_triggered = (deliveries (trace st) < deliveries (trace st'))"
  using assms
  by (auto simp add: release_notification_def split: sum.splits prod.splits
      dest!: triggers_loop_result)

text \<open>A list of names that is not empty is walked as it is, for every index.\<close>

lemma candidates_are_the_names_given:
  "candidates env (Some (n # ns)) url st = (Inr (n # ns), st)"
  by (simp add: candidates_def)

section \<open>Where the code departs from the specification\<close>

text \<open>
  C1. The store knows \<open>widget\<close> 1.0 already, the index lists 1.0 and 1.1, and there is a
  trigger for \<open>widget\<close>. The create call for 1.0 reports \<open>existed = True\<close>, and the
  delivery for 1.0 is made all the same: the guard is \<open>added and monitored_packages\<close>,
  and \<open>added\<close> is a pair.
\<close>

theorem known_release_is_notified:
  "trace (snd (package_releases_update demo_env widget_config (Some [''widget'']) False
                 (init_state [(''widget'', ''1.0'', demo_index)])))
   = [IndexAll, Log INFO (CheckingIndex demo_index), GetPackageVersions demo_index ''widget'',
      CreateEntity ''widget'' ''1.0'' demo_index False (Some (Entity ''widget'' ''1.0'' demo_index, True)),
      Log DEBUG (AlreadyPresent ''widget'' ''1.0'' demo_index),
      Log DEBUG (TriggeringNotification ''widget'' ''1.0''),
      HttpPost (PostCall ''http://hook/widget''
                  (explicit_keywords demo_env ''widget'' ''1.0'' demo_index) None) True,
      Log INFO (TriggeredNotification ''widget'' ''1.0''
                  (YDict [(''url'', YStr ''http://hook/{package_name}'')])),
      CreateEntity ''widget'' ''1.1'' demo_index False (Some (Entity ''widget'' ''1.1'' demo_index, False)),
      Log INFO (NewReleaseAdded ''widget'' ''1.1'' demo_index),
      Log DEBUG (TriggeringNotification ''widget'' ''1.1''),
      HttpPost (PostCall ''http://hook/widget''
                  (explicit_keywords demo_env ''widget'' ''1.1'' demo_index) None) True,
      Log INFO (TriggeredNotification ''widget'' ''1.1''
                  (YDict [(''url'', YStr ''http://hook/{package_name}'')]))]"
  by (simp add: demo_simps Let_def)

text \<open>
  C2. The configuration has triggers for another package only. For \<open>widget\<close>
  \<open>release_notification\<close> returns \<open>False\<close> and no delivery is attempted, yet the gauge
  of notified packages is incremented for each of the two new releases.
\<close>

theorem notified_gauge_ignores_the_result:
  "fst (release_notification demo_env other_config ''widget'' ''1.0'' demo_index (init_state [])) = Inr False
   \<and> filter is_post (trace (snd (package_releases_update demo_env other_config (Some [''widget''])
                                    False (init_state [])))) = []
   \<and> packages_added (snd (package_releases_update demo_env other_config (Some [''widget''])
                             False (init_state []))) = 2
   \<and> packages_notified (snd (package_releases_update demo_env other_config (Some [''widget''])
                                False (init_state []))) = 2"
  by (simp add: demo_simps other_config_def Let_def)

text \<open>
  C3. With the only-if-package-seen flag and a store that knows no package, the list of
  names is empty, \<open>package_names or package_index.get_packages()\<close> asks the index for its
  catalogue, and every package of the index is evaluated and created.
\<close>

theorem empty_catalogue_falls_back_to_the_index:
  "fst (get_python_package_version_entities_names_all demo_env []) = Inr []
   \<and> trace (snd (cli demo_env False None True None None (init_state [])))
   = [Log DEBUG DebugModeOn, Log INFO VersionInfo, Connect, NamesAll, IndexAll,
      Log INFO (CheckingIndex demo_index), GetPackages demo_index,
      GetPackageVersions demo_index ''widget'',
      CreateEntity ''widget'' ''1.0'' demo_index False (Some (Entity ''widget'' ''1.0'' demo_index, False)),
      Log INFO (NewReleaseAdded ''widget'' ''1.0'' demo_index),
      CreateEntity ''widget'' ''1.1'' demo_index False (Some (Entity ''widget'' ''1.1'' demo_index, False)),
      Log INFO (NewReleaseAdded ''widget'' ''1.1'' demo_index),
      ObserveTime, Log INFO (SubmittingMetrics ''http://pushgateway:9091''),
      PushToGateway ''http://pushgateway:9091'' True]"
  by (simp add: demo_simps Let_def)

end
